theory Spec2Isabelle
  imports Main "HOL-Library.Sublist"
begin

section \<open>Strings\<close>

text \<open>
  Python \<open>str\<close> values are modelled as \<open>string\<close>: a list of code points below 256.
  The operations below are the \<open>str\<close> methods that \<open>OSWebScrap.py\<close> calls, with the
  arguments the program passes to them.
\<close>

definition startswith :: "string \<Rightarrow> string \<Rightarrow> bool" where
  "startswith s p = (take (length p) s = p)"

definition endswith :: "string \<Rightarrow> string \<Rightarrow> bool" where
  "endswith s p = (length p \<le> length s \<and> drop (length s - length p) s = p)"

text \<open>
  \<open>s.lower()\<close>: the capitals \<open>A\<close> to \<open>Z\<close> (65 to 90) and the accented capitals 192 to
  222 other than the multiplication sign 215 move up by 32.
\<close>

definition lower_char :: "char \<Rightarrow> char" where
  "lower_char c =
     (let n = (of_char c :: nat) in
      if (65 \<le> n \<and> n \<le> 90) \<or> (192 \<le> n \<and> n \<le> 222 \<and> n \<noteq> 215) then char_of (n + 32) else c)"

definition lower :: "string \<Rightarrow> string" where
  "lower s = map lower_char s"

fun join :: "string \<Rightarrow> string list \<Rightarrow> string" where
  "join sep [] = []"
| "join sep [x] = x"
| "join sep (x # y # ys) = x @ sep @ join sep (y # ys)"

definition digit_char :: "nat \<Rightarrow> char" where
  "digit_char d = ''0123456789'' ! d"

fun str_nat :: "nat \<Rightarrow> string" where
  "str_nat n = (if n < 10 then [digit_char n] else str_nat (n div 10) @ [digit_char (n mod 10)])"

declare str_nat.simps [simp del]

section \<open>URL validation\<close>

definition DISALLOWED_EXTENSIONS :: "string list" where
  "DISALLOWED_EXTENSIONS =
     [''.pdf'', ''.xls'', ''.xlsx'', ''.doc'', ''.docx'', ''.ppt'', ''.pptx'', ''.zip'', ''.rar'']"

definition is_valid_url :: "string \<Rightarrow> bool" where
  "is_valid_url url =
     (if \<not> (startswith url ''http://'' \<or> startswith url ''https://'') then False
      else if list_ex (\<lambda>ext. endswith (lower url) ext) DISALLOWED_EXTENSIONS then False
      else True)"

section \<open>The parsed document\<close>

text \<open>
  \<open>BeautifulSoup(response.text, "html.parser")\<close> yields a tree of tags and text
  nodes. A tag carries its name, its attribute dictionary (an association list, looked up
  with \<open>map_of\<close>) and its children in document order. A text node carries its class
  and its characters. The tree builder gives a text node the class of the innermost
  open \<open>rt\<close>, \<open>rp\<close>, \<open>style\<close>, \<open>script\<close> or \<open>template\<close> element
  (\<open>RubyTextString\<close>, \<open>RubyParenthesisString\<close>, \<open>Stylesheet\<close>, \<open>Script\<close>,
  \<open>TemplateString\<close>), the plain class \<open>NavigableString\<close> (here \<open>PlainString\<close>)
  outside of them, and their own classes to comments, CDATA sections, declarations,
  doctypes and processing instructions.
\<close>

datatype string_class =
    PlainString | CData | Comment | Declaration | Doctype | ProcessingInstruction
  | RubyTextString | RubyParenthesisString | Stylesheet | Script | TemplateString

datatype node =
    NavigableString string_class string
  | Tag string "(string \<times> string) list" "node list"

text \<open>\<open>tag.get(key)\<close>: the attribute's value, \<open>None\<close> when the attribute is absent.\<close>

fun get_attr :: "node \<Rightarrow> string \<Rightarrow> string option" where
  "get_attr (NavigableString k s) key = None"
| "get_attr (Tag n a cs) key = map_of a key"

text \<open>\<open>tag.name == nm\<close>.\<close>

fun is_named :: "string \<Rightarrow> node \<Rightarrow> bool" where
  "is_named nm (NavigableString k s) = False"
| "is_named nm (Tag n a cs) = (n = nm)"

text \<open>All nodes below a node, in document order (the node itself is not among them).\<close>

fun descendants :: "node \<Rightarrow> node list" where
  "descendants (NavigableString k s) = []"
| "descendants (Tag n a cs) = concat (map (\<lambda>c. c # descendants c) cs)"

text \<open>\<open>tag.find_all(names)\<close>: every tag below \<open>tag\<close> whose name is one of \<open>names\<close>.\<close>

definition find_all :: "string list \<Rightarrow> node \<Rightarrow> node list" where
  "find_all names t = filter (\<lambda>d. list_ex (\<lambda>nm. is_named nm d) names) (descendants t)"

text \<open>\<open>tag.find(name)\<close>, here \<open>find_first\<close>: the first such tag, or \<open>None\<close>.\<close>

definition find_first :: "string \<Rightarrow> node \<Rightarrow> node option" where
  "find_first nm t = (case find_all [nm] t of [] \<Rightarrow> None | x # _ \<Rightarrow> Some x)"

text \<open>
  \<open>a == b\<close> on tree nodes: two tags are equal when they have the same name, the same
  attribute dictionary and pairwise equal children; two text nodes when they are the same
  string, whatever their class. It is equality of structure, not identity.
\<close>

definition attrs_eq :: "(string \<times> string) list \<Rightarrow> (string \<times> string) list \<Rightarrow> bool" where
  "attrs_eq a b = list_all (\<lambda>k. map_of a k = map_of b k) (map fst a @ map fst b)"

fun node_eq :: "node \<Rightarrow> node \<Rightarrow> bool" and nodes_eq :: "node list \<Rightarrow> node list \<Rightarrow> bool" where
  "node_eq (NavigableString k s) (NavigableString l t) = (s = t)"
| "node_eq (Tag n a cs) (Tag m b ds) = (n = m \<and> attrs_eq a b \<and> nodes_eq cs ds)"
| "node_eq (NavigableString k s) (Tag m b ds) = False"
| "node_eq (Tag n a cs) (NavigableString l t) = False"
| "nodes_eq [] [] = True"
| "nodes_eq (c # cs) (d # ds) = (node_eq c d \<and> nodes_eq cs ds)"
| "nodes_eq [] (d # ds) = False"
| "nodes_eq (c # cs) [] = False"

text \<open>
  \<open>s.strip()\<close> removes leading and trailing whitespace: tab, line feed, vertical tab,
  form feed, carriage return (9 to 13), the four separators 28 to 31, space (32), next
  line (133) and the no-break space (160).
\<close>

definition isspace :: "char \<Rightarrow> bool" where
  "isspace c =
     (let n = (of_char c :: nat) in
      (9 \<le> n \<and> n \<le> 13) \<or> (28 \<le> n \<and> n \<le> 32) \<or> n = 133 \<or> n = 160)"

definition strip :: "string \<Rightarrow> string" where
  "strip s = rev (dropWhile isspace (rev (dropWhile isspace s)))"

text \<open>
  The text nodes below (or at) a node whose class is one of \<open>types\<close>, in document
  order.
\<close>

fun all_strings :: "string_class list \<Rightarrow> node \<Rightarrow> string list" where
  "all_strings types (NavigableString k s) = (if List.member types k then [s] else [])"
| "all_strings types (Tag n a cs) = concat (map (all_strings types) cs)"

text \<open>
  The classes of text that \<open>get_text\<close> collects when called on a node: for one of the
  five container elements its own class, for every other tag, the document among them,
  plain text and CDATA sections.
\<close>

fun interesting_string_types :: "node \<Rightarrow> string_class list" where
  "interesting_string_types (NavigableString k s) = [PlainString, CData]"
| "interesting_string_types (Tag n a cs) =
     (if n = ''rt'' then [RubyTextString]
      else if n = ''rp'' then [RubyParenthesisString]
      else if n = ''style'' then [Stylesheet]
      else if n = ''script'' then [Script]
      else if n = ''template'' then [TemplateString]
      else [PlainString, CData])"

text \<open>\<open>tag.get_text()\<close>: the collected text nodes concatenated.\<close>

definition get_text :: "node \<Rightarrow> string" where
  "get_text t = concat (all_strings (interesting_string_types t) t)"

text \<open>
  \<open>tag.get_text(strip=True)\<close>: every collected text node stripped, the ones left empty
  dropped, the rest concatenated with nothing between them.
\<close>

definition get_text_strip :: "node \<Rightarrow> string" where
  "get_text_strip t =
     concat (filter (\<lambda>s. s \<noteq> []) (map strip (all_strings (interesting_string_types t) t)))"

section \<open>Tables\<close>

record table =
  headers :: "string list"
  rows :: "string list list"

text \<open>
  The body of \<open>for row in rows\<close> (lines 109 to 116 of \<open>OSWebScrap.py\<close>); \<open>r0\<close> is
  \<open>rows[0]\<close>. The result is \<open>table_data\<close>.
\<close>

fun collect_rows :: "node \<Rightarrow> string list \<Rightarrow> node list \<Rightarrow> string list list" where
  "collect_rows r0 header_row [] = []"
| "collect_rows r0 header_row (row # rest) =
     (if node_eq r0 row \<and> header_row \<noteq> [] \<and>
         list_all (is_named ''th'') (find_all [''td'', ''th''] row)
      then collect_rows r0 header_row rest
      else (let row_data = map get_text_strip (find_all [''td'', ''th''] row) in
            if row_data \<noteq> [] then row_data # collect_rows r0 header_row rest
            else collect_rows r0 header_row rest))"

text \<open>The header of a table (lines 94 to 105).\<close>

definition table_header :: "node \<Rightarrow> string list" where
  "table_header tbl =
     (let ths = find_all [''th''] tbl;
          header_row = (if ths \<noteq> [] then map get_text_strip ths else [])
      in if header_row = [] then
           (case find_first ''tr'' tbl of
              None \<Rightarrow> header_row
            | Some first_row \<Rightarrow>
                (let cells = find_all [''td'', ''th''] first_row in
                 if cells \<noteq> [] then map get_text_strip cells else header_row))
         else header_row)"

text \<open>One pass of \<open>for table_idx, table in enumerate(soup.find_all("table"), start=1)\<close>.\<close>

definition extract_table :: "node \<Rightarrow> table" where
  "extract_table tbl =
     (let header_row = table_header tbl;
          rws = find_all [''tr''] tbl;
          table_data = (case rws of [] \<Rightarrow> [] | r0 # _ \<Rightarrow> collect_rows r0 header_row rws)
      in \<lparr>headers = header_row, rows = table_data\<rparr>)"

definition scrape_tables :: "node \<Rightarrow> table list" where
  "scrape_tables soup = map extract_table (find_all [''table''] soup)"

section \<open>Rendering tables\<close>

text \<open>
  \<open>if headers and len(row) < len(headers): row.extend(["" for _ in range(...)])\<close>.
  The row object is changed in place; the model returns the row as it is afterwards.
\<close>

definition pad_row :: "string list \<Rightarrow> string list \<Rightarrow> string list" where
  "pad_row hdrs row =
     (if hdrs \<noteq> [] \<and> length row < length hdrs
      then row @ map (\<lambda>_. []) [0 ..< length hdrs - length row]
      else row)"

text \<open>\<open>cell.replace("|", "\\|")\<close>: every pipe character becomes backslash, pipe.\<close>

definition replace_pipe :: "string \<Rightarrow> string" where
  "replace_pipe cell = concat (map (\<lambda>c. if c = CHR ''|'' then [CHR 0x5C, CHR ''|''] else [c]) cell)"

definition row_line :: "string list \<Rightarrow> string" where
  "row_line row = ''| '' @ join '' | '' (map replace_pipe row) @ '' |\<newline>''"

definition header_line :: "string list \<Rightarrow> string" where
  "header_line hdrs = ''| '' @ join '' | '' hdrs @ '' |\<newline>''"

definition separator_line :: "string list \<Rightarrow> string" where
  "separator_line hdrs = ''| '' @ join '' | '' (map (\<lambda>_. ''---'') hdrs) @ '' |\<newline>''"

text \<open>
  \<open>for row in table["rows"]\<close> (lines 152 to 158): the Markdown of the rows, and the rows
  as the loop leaves them.
\<close>

fun render_rows :: "string list \<Rightarrow> string list list \<Rightarrow> string \<times> string list list" where
  "render_rows hdrs [] = ([], [])"
| "render_rows hdrs (row # rest) =
     (let row' = pad_row hdrs row;
          (md, rest') = render_rows hdrs rest
      in (row_line row' @ md, row' # rest'))"

text \<open>One pass of \<open>for idx, table in enumerate(tables, start=1)\<close> (lines 143 to 160).\<close>

definition render_table :: "nat \<Rightarrow> table \<Rightarrow> string \<times> table" where
  "render_table idx t =
     (let hdrs = headers t;
          head = (if hdrs \<noteq> [] then header_line hdrs @ separator_line hdrs else []);
          (body, rows') = render_rows hdrs (rows t)
      in (''### Table '' @ str_nat idx @ ''\<newline>\<newline>'' @ head @ body @ ''\<newline>'',
          t\<lparr>rows := rows'\<rparr>))"

fun render_tables :: "nat \<Rightarrow> table list \<Rightarrow> string \<times> table list" where
  "render_tables idx [] = ([], [])"
| "render_tables idx (t # ts) =
     (let (md, t') = render_table idx t;
          (mds, ts') = render_tables (idx + 1) ts
      in (md @ mds, t' # ts'))"

text \<open>\<open>if tables: ...\<close> (lines 140 to 160).\<close>

definition tables_section :: "table list \<Rightarrow> string" where
  "tables_section tables =
     (if tables \<noteq> [] then ''## Tables\<newline>\<newline>'' @ fst (render_tables 1 tables)
      else [])"

section \<open>Images\<close>

text \<open>
  The network and the library calls whose results the program only passes on.
  \<open>requests_get\<close> is \<open>requests.get\<close>: it raises when no response is obtained (a
  transport failure, a URL it cannot request) and returns the response otherwise,
  whatever the status code. \<open>urljoin\<close> is \<open>requests.compat.urljoin\<close>: it raises
  \<open>ValueError\<close> on a reference it cannot parse.
\<close>

datatype error = ConnectionError | HTTPError nat | ValueError | SystemExit nat

record response =
  status_code :: nat
  response_text :: string
  content :: string

record world =
  requests_get :: "string \<Rightarrow> error + response"
  urljoin :: "string \<Rightarrow> string \<Rightarrow> error + string"
  html_parser :: "string \<Rightarrow> node"
  s3_put_object_ok :: bool

text \<open>
  \<open>base64.b64encode(data).decode('utf-8')\<close>: the 24 bits of three bytes give four
  characters of the alphabet, six bits each; a last group of one or two bytes is filled
  up with zero bits and \<open>=\<close>.
\<close>

definition b64_char :: "nat \<Rightarrow> char" where
  "b64_char n = ''ABCDEFGHIJKLMNOPQRSTUVWXYZabcdefghijklmnopqrstuvwxyz0123456789+/'' ! n"

fun b64encode :: "string \<Rightarrow> string" where
  "b64encode [] = []"
| "b64encode [a] =
     (let x = (of_char a :: nat) in
      [b64_char (x div 4), b64_char (x mod 4 * 16), CHR ''='', CHR ''=''])"
| "b64encode [a, b] =
     (let x = (of_char a :: nat); y = (of_char b :: nat) in
      [b64_char (x div 4), b64_char (x mod 4 * 16 + y div 16), b64_char (y mod 16 * 4),
       CHR ''=''])"
| "b64encode (a # b # c # rest) =
     (let x = (of_char a :: nat); y = (of_char b :: nat); z = (of_char c :: nat) in
      [b64_char (x div 4), b64_char (x mod 4 * 16 + y div 16),
       b64_char (y mod 16 * 4 + z div 64), b64_char (z mod 64)] @ b64encode rest)"

text \<open>\<open>response.raise_for_status()\<close>: a status from 400 to 599 raises.\<close>

definition raise_for_status :: "response \<Rightarrow> error + unit" where
  "raise_for_status r =
     (if 400 \<le> status_code r \<and> status_code r < 600 then Inl (HTTPError (status_code r))
      else Inr ())"

record image =
  embedded :: string
  alt :: string

text \<open>Lines 71 to 75.\<close>

definition img_format :: "string \<Rightarrow> string" where
  "img_format img_url =
     (if endswith (lower img_url) ''.png'' then ''png''
      else if endswith (lower img_url) ''.gif'' then ''gif''
      else ''jpeg'')"

text \<open>
  The body of \<open>for idx, img_tag in enumerate(img_tags)\<close> (lines 62 to 86). The result
  is \<open>Inr (Some img)\<close> when the pass appends \<open>img\<close> to \<open>images\<close>, \<open>Inr None\<close> when it
  appends nothing (\<open>continue\<close>, or an exception caught by the handler, which prints and
  goes on), and \<open>Inl e\<close> when the pass raises \<open>e\<close>: \<open>urljoin\<close> at line 65 is called
  before the \<open>try\<close>. Inside the \<open>try\<close> only \<open>requests.get\<close> can raise; the response's
  status is not looked at.
\<close>

definition embed_image :: "world \<Rightarrow> string \<Rightarrow> nat \<Rightarrow> node \<Rightarrow> error + image option" where
  "embed_image w url idx img_tag =
     (case get_attr img_tag ''src'' of
        None \<Rightarrow> Inr None
      | Some src \<Rightarrow>
          if src = [] then Inr None
          else (case urljoin w url src of
                  Inl e \<Rightarrow> Inl e
                | Inr img_url \<Rightarrow>
                    (case requests_get w img_url of
                       Inl e \<Rightarrow> Inr None
                     | Inr r \<Rightarrow>
                         Inr (Some \<lparr>embedded = ''data:image/'' @ img_format img_url
                                                @ '';base64,'' @ b64encode (content r),
                                    alt = (case get_attr img_tag ''alt'' of
                                             None \<Rightarrow> ''Image '' @ str_nat (idx + 1)
                                           | Some a \<Rightarrow> a)\<rparr>))))"

text \<open>
  The loop over \<open>enumerate(img_tags)\<close>, from index \<open>idx\<close> on: the list \<open>images\<close>, or
  the exception of the first pass that raises.
\<close>

fun scrape_images :: "world \<Rightarrow> string \<Rightarrow> nat \<Rightarrow> node list \<Rightarrow> error + image list" where
  "scrape_images w url idx [] = Inr []"
| "scrape_images w url idx (img_tag # rest) =
     (case embed_image w url idx img_tag of
        Inl e \<Rightarrow> Inl e
      | Inr None \<Rightarrow> scrape_images w url (idx + 1) rest
      | Inr (Some img) \<Rightarrow>
          (case scrape_images w url (idx + 1) rest of
             Inl e \<Rightarrow> Inl e
           | Inr images \<Rightarrow> Inr (img # images)))"

text \<open>
  \<open>if images: ...\<close> (lines 163 to 167). Every dictionary in \<open>images\<close> has the key
  \<open>alt\<close>, so \<open>image.get("alt", ...)\<close> is that entry.
\<close>

definition image_line :: "image \<Rightarrow> string" where
  "image_line img = ''!['' @ alt img @ '']('' @ embedded img @ '')\<newline>\<newline>''"

definition images_section :: "image list \<Rightarrow> string" where
  "images_section images =
     (if images \<noteq> [] then ''## Images\<newline>\<newline>'' @ concat (map image_line images)
      else [])"

section \<open>Visible text\<close>

text \<open>
  \<open>for script_or_style in soup(["script", "style"]): script_or_style.extract()\<close>:
  the tree without its \<open>script\<close> and \<open>style\<close> tags, at any depth.
\<close>

fun extract_tags :: "string list \<Rightarrow> node \<Rightarrow> node" where
  "extract_tags names (NavigableString k s) = NavigableString k s"
| "extract_tags names (Tag n a cs) =
     Tag n a (map (extract_tags names)
                (filter (\<lambda>c. \<not> list_ex (\<lambda>nm. is_named nm c) names) cs))"

text \<open>
  \<open>s.splitlines()\<close>: the lines of \<open>s\<close> without their line ends. A line ends at a
  carriage return followed by a line feed, or at one of the characters 10 to 13, 28 to 30
  and 133. \<open>cur\<close> is the line read so far.
\<close>

definition is_linebreak :: "char \<Rightarrow> bool" where
  "is_linebreak c =
     (let n = (of_char c :: nat) in (10 \<le> n \<and> n \<le> 13) \<or> (28 \<le> n \<and> n \<le> 30) \<or> n = 133)"

fun splitlines_from :: "string \<Rightarrow> string \<Rightarrow> string list" where
  "splitlines_from cur [] = (if cur = [] then [] else [cur])"
| "splitlines_from cur [c] = (if is_linebreak c then [cur] else [cur @ [c]])"
| "splitlines_from cur (c # d # cs) =
     (if c = CHR 0x0D \<and> d = CHR ''\<newline>'' then cur # splitlines_from [] cs
      else if is_linebreak c then cur # splitlines_from [] (d # cs)
      else splitlines_from (cur @ [c]) (d # cs))"

definition splitlines :: "string \<Rightarrow> string list" where
  "splitlines s = splitlines_from [] s"

text \<open>\<open>line.split("  ")\<close>: the pieces between occurrences of two spaces, left to right.\<close>

fun split_from :: "string \<Rightarrow> string \<Rightarrow> string list" where
  "split_from cur [] = [cur]"
| "split_from cur [c] = [cur @ [c]]"
| "split_from cur (c # d # cs) =
     (if c = CHR '' '' \<and> d = CHR '' '' then cur # split_from [] cs
      else split_from (cur @ [c]) (d # cs))"

definition split_double_space :: "string \<Rightarrow> string list" where
  "split_double_space line = split_from [] line"

text \<open>Lines 126 to 133.\<close>

definition cleaned_text :: "node \<Rightarrow> string" where
  "cleaned_text soup =
     (let txt = get_text (extract_tags [''script'', ''style''] soup);
          lines = map strip (splitlines txt);
          chunks = concat (map (\<lambda>line. map strip (split_double_space line)) lines)
      in join ''\<newline>'' (filter (\<lambda>chunk. chunk \<noteq> []) chunks))"

section \<open>The scraper\<close>

text \<open>Lines 136 to 167: the Markdown document put together from the three parts.\<close>

definition render_markdown :: "string \<Rightarrow> table list \<Rightarrow> image list \<Rightarrow> string" where
  "render_markdown txt tables images =
     ''# Extracted Web Content\<newline>\<newline>''
     @ ''## Content\<newline>\<newline>'' @ txt @ ''\<newline>\<newline>''
     @ tables_section tables
     @ images_section images"

text \<open>
  Lines 54 to 167 of \<open>scrape_visual_data\<close>: the document is fetched, an error there
  leaves the function, and so does an exception of the image loop; the rest is computed
  from the parsed tree.
\<close>

definition markdown_content :: "world \<Rightarrow> string \<Rightarrow> error + string" where
  "markdown_content w url =
     (case requests_get w url of
        Inl e \<Rightarrow> Inl e
      | Inr resp \<Rightarrow>
          (case raise_for_status resp of
             Inl e \<Rightarrow> Inl e
           | Inr _ \<Rightarrow>
               (let soup = html_parser w (response_text resp) in
                case scrape_images w url 0 (find_all [''img''] soup) of
                  Inl e \<Rightarrow> Inl e
                | Inr images \<Rightarrow>
                    Inr (render_markdown (cleaned_text soup) (scrape_tables soup) images))))"

text \<open>
  \<open>markdown_content.encode("utf-8")\<close>: a code point below 128 is one byte, one from
  128 to 255 is two.
\<close>

definition encode_utf8 :: "string \<Rightarrow> string" where
  "encode_utf8 s =
     concat (map (\<lambda>c. let n = (of_char c :: nat) in
                        if n < 128 then [c]
                        else [char_of (192 + n div 64), char_of (128 + n mod 64)]) s)"

text \<open>
  \<open>upload_file_to_s3\<close> catches every exception of \<open>put_object\<close>; the bucket is a map
  from keys to objects, changed when the call succeeds.
\<close>

definition upload_file_to_s3 ::
  "world \<Rightarrow> string \<Rightarrow> string \<Rightarrow> (string \<rightharpoonup> string) \<Rightarrow> (string \<rightharpoonup> string)" where
  "upload_file_to_s3 w file_content s3_path bucket =
     (if s3_put_object_ok w then bucket(s3_path \<mapsto> file_content) else bucket)"

definition markdown_s3_path :: string where
  "markdown_s3_path = ''scraped_data/scraped_os_data/scraped_content.md''"

definition scrape_visual_data ::
  "world \<Rightarrow> string \<Rightarrow> (string \<rightharpoonup> string) \<Rightarrow> error + (string \<times> (string \<rightharpoonup> string))" where
  "scrape_visual_data w url bucket =
     (case markdown_content w url of
        Inl e \<Rightarrow> Inl e
      | Inr md \<Rightarrow>
          Inr (markdown_s3_path, upload_file_to_s3 w (encode_utf8 md) markdown_s3_path bucket))"

definition scrape_text_data_with_images ::
  "world \<Rightarrow> string \<Rightarrow> (string \<rightharpoonup> string) \<Rightarrow> error + (string \<times> (string \<rightharpoonup> string))" where
  "scrape_text_data_with_images w url bucket = scrape_visual_data w url bucket"

text \<open>The script's entry point (lines 188 to 200), on the line the user typed.\<close>

definition main :: 
  "world \<Rightarrow> string \<Rightarrow> (string \<rightharpoonup> string) \<Rightarrow> error + (string \<times> (string \<rightharpoonup> string))" where
  "main w user_input bucket =
     (let user_url = strip user_input in
      if \<not> is_valid_url user_url then Inl (SystemExit 1)
      else scrape_text_data_with_images w user_url bucket)"

section \<open>Measuring the output\<close>

text \<open>
  \<open>s.count(sub)\<close> for a non-empty \<open>sub\<close>: the number of occurrences of \<open>sub\<close> in
  \<open>s\<close>, found from left to right without overlap.
\<close>

function str_count :: "string \<Rightarrow> string \<Rightarrow> nat" where
  "str_count sub [] = 0"
| "str_count sub (c # cs) =
     (if sub \<noteq> [] \<and> startswith (c # cs) sub
      then 1 + str_count sub (drop (length sub) (c # cs))
      else str_count sub cs)"
  by pat_completeness auto
termination
  by (relation "measure (\<lambda>(sub, s). length s)") auto

section \<open>The specification's wording\<close>

text \<open>
  The specification states URL validation in terms of the URL's scheme and path. The
  scheme is the text before the first colon, read without regard to case; the path
  begins after the authority that follows \<open>://\<close> and ends before the first \<open>?\<close> or
  \<open>#\<close>.
\<close>

definition spec_url_scheme :: "string \<Rightarrow> string" where
  "spec_url_scheme url = lower (takeWhile (\<lambda>c. c \<noteq> CHR '':'') url)"

definition spec_url_path :: "string \<Rightarrow> string" where
  "spec_url_path url =
     (let after_scheme = drop 3 (dropWhile (\<lambda>c. c \<noteq> CHR '':'') url);
          after_authority = dropWhile (\<lambda>c. \<not> List.member ''/?#'' c) after_scheme
      in takeWhile (\<lambda>c. \<not> List.member ''?#'' c) after_authority)"

definition spec_validate :: "string \<Rightarrow> bool" where
  "spec_validate url =
     (List.member [''http'', ''https''] (spec_url_scheme url) \<and>
      \<not> list_ex (\<lambda>ext. endswith (lower (spec_url_path url)) ext) DISALLOWED_EXTENSIONS)"

text \<open>
  The specification's data rows for a table whose header is its first row: the cell texts
  of every row after the first, rows without cells left out.
\<close>

definition spec_fallback_data_rows :: "node \<Rightarrow> string list list" where
  "spec_fallback_data_rows tbl =
     filter (\<lambda>row_data. row_data \<noteq> [])
       (map (\<lambda>row. map get_text_strip (find_all [''td'', ''th''] row))
          (tl (find_all [''tr''] tbl)))"

section \<open>Example inputs\<close>

text \<open>
  The table of the specification's scenario, and a table without header cells whose
  cells have spaces around their text.
\<close>

definition scenario_table :: node where
  "scenario_table =
     Tag ''table'' []
       [Tag ''tr'' []
          [Tag ''th'' [] [NavigableString PlainString ''A''],
           Tag ''th'' [] [NavigableString PlainString ''B'']],
        Tag ''tr'' [] [Tag ''td'' [] [NavigableString PlainString ''1'']]]"

definition headerless_table :: node where
  "headerless_table =
     Tag ''table'' []
       [Tag ''tr'' []
          [Tag ''td'' [] [NavigableString PlainString '' A ''],
           Tag ''td'' [] [NavigableString PlainString ''B '']],
        Tag ''tr'' [] [Tag ''td'' [] [NavigableString PlainString '' 1'']]]"

text \<open>
  A page with a paragraph, three images and the scenario table; a page with text only;
  a page whose one image answers with status 404; a page whose second image has a source
  that \<open>urljoin\<close> cannot parse; and a network in which \<open>missing.gif\<close> cannot be
  fetched, \<open>gone.png\<close> and \<open>gone\<close> answer 404, and every other URL answers 200 with
  the URL as its text.
\<close>

definition example_soup :: node where
  "example_soup =
     Tag ''[document]'' []
       [Tag ''p'' [] [NavigableString PlainString ''Hello''],
        Tag ''img'' [(''src'', ''a.PNG''), (''alt'', ''logo'')] [],
        Tag ''img'' [(''src'', ''b.webp'')] [],
        Tag ''img'' [(''src'', ''missing.gif'')] [],
        scenario_table]"

definition plain_soup :: node where
  "plain_soup = Tag ''[document]'' [] [Tag ''p'' [] [NavigableString PlainString ''Hello'']]"

definition gone_image_soup :: node where
  "gone_image_soup =
     Tag ''[document]'' []
       [Tag ''p'' [] [NavigableString PlainString ''Hello''],
        Tag ''img'' [(''src'', ''gone.png'')] []]"

definition malformed_src_soup :: node where
  "malformed_src_soup =
     Tag ''[document]'' []
       [Tag ''p'' [] [NavigableString PlainString ''Hello''],
        Tag ''img'' [(''src'', ''a.PNG'')] [],
        Tag ''img'' [(''src'', ''http://[bad'')] []]"

definition example_world :: world where
  "example_world =
     \<lparr>requests_get =
        (\<lambda>u. if u = ''http://h/missing.gif'' then Inl ConnectionError
             else if u = ''http://h/gone'' \<or> u = ''http://h/gone.png'' then
               Inr \<lparr>status_code = 404, response_text = ''Not Found'', content = ''Not Found''\<rparr>
             else Inr \<lparr>status_code = 200, response_text = u, content = ''bytes''\<rparr>),
      urljoin =
        (\<lambda>base rel. if rel = ''http://[bad'' then Inl ValueError else Inr (''http://h/'' @ rel)),
      html_parser =
        (\<lambda>markup. if markup = ''http://h/plain'' then plain_soup
                  else if markup = ''http://h/gone-image'' then gone_image_soup
                  else if markup = ''http://h/malformed-src'' then malformed_src_soup
                  else example_soup),
      s3_put_object_ok = True\<rparr>"

section \<open>Facts about strings\<close>

lemma startswith_prefix: "startswith s p = prefix p s"
  unfolding startswith_def
  by (metis take_is_prefix prefix_def append_eq_conv_conj)

lemma endswith_suffix: "endswith s p = suffix p s"
  unfolding endswith_def
  by (metis append_take_drop_id same_append_eq suffix_drop suffix_length_le suffix_take)

lemma replace_pipe_id: "CHR ''|'' \<notin> set cell \<Longrightarrow> replace_pipe cell = cell"
  by (induction cell) (auto simp: replace_pipe_def)

section \<open>URL validation\<close>

text \<open>
  C2, as the specification states it: \<open>is_valid_url\<close> accepts a URL exactly when its
  scheme is http or https and its path does not end in a disallowed extension. The code
  looks at the end of the whole URL string, so a path ending in \<open>.pdf\<close> that is followed
  by a query is accepted.
\<close>

theorem is_valid_url_not_path_based:
  "is_valid_url ''http://example.com/report.pdf?download=1'' \<noteq>
   spec_validate ''http://example.com/report.pdf?download=1''"
  by code_simp

text \<open>
  C2, amended: \<open>is_valid_url\<close> accepts a URL exactly when the string begins with
  \<open>http://\<close> or \<open>https://\<close> as written and the lower-cased string as a whole does not
  end in one of the nine disallowed extensions; the script's entry point validates first,
  and on a rejected URL it exits with status 1 whatever the network would answer and leaves
  the bucket alone.
\<close>

theorem is_valid_url_characterised:
  "(is_valid_url url \<longleftrightarrow>
      (prefix ''http://'' url \<or> prefix ''https://'' url) \<and>
      (\<forall>ext \<in> set [''.pdf'', ''.xls'', ''.xlsx'', ''.doc'', ''.docx'', ''.ppt'', ''.pptx'', ''.zip'', ''.rar''].
         \<not> suffix ext (lower url))) \<and>
   (\<not> is_valid_url (strip user_input) \<longrightarrow> main w user_input bucket = Inl (SystemExit 1))"
  by (simp add: is_valid_url_def startswith_prefix endswith_suffix main_def
      DISALLOWED_EXTENSIONS_def)

theorem is_valid_url_characterised_witness:
  "is_valid_url ''https://example.com/page.html'' \<and>
   \<not> is_valid_url ''https://example.com/REPORT.PDF'' \<and>
   \<not> is_valid_url ''ftp://example.com/page.html'' \<and>
   main example_world '' ftp://example.com/page.html '' Map.empty = Inl (SystemExit 1)"
proof -
  have a: "is_valid_url ''https://example.com/page.html''" by code_simp
  have b: "\<not> is_valid_url ''https://example.com/REPORT.PDF''" by code_simp
  have c: "\<not> is_valid_url (strip '' ftp://example.com/page.html '')" by code_simp
  have d: "\<not> is_valid_url ''ftp://example.com/page.html''" by code_simp
  from is_valid_url_characterised [of "''https://example.com/page.html''"
      "'' ftp://example.com/page.html ''" example_world Map.empty] a b c d
  show ?thesis by simp
qed

section \<open>Rendering a table\<close>

lemma render_rows_eq:
  "render_rows hdrs rws =
     (concat (map (\<lambda>row. row_line (pad_row hdrs row)) rws), map (pad_row hdrs) rws)"
  by (induction rws) (simp_all add: Let_def split: prod.splits)

lemma pad_row_short:
  "hdrs \<noteq> [] \<Longrightarrow> length row < length hdrs \<Longrightarrow>
     pad_row hdrs row = row @ replicate (length hdrs - length row) []"
  by (simp add: pad_row_def map_replicate_trivial)

lemma pad_row_long: "length hdrs \<le> length row \<Longrightarrow> pad_row hdrs row = row"
  by (simp add: pad_row_def)

lemma take_pad_row: "take (length row) (pad_row hdrs row) = row"
  by (simp add: pad_row_def)

text \<open>
  C3: every cell, header cells included, has its pipe characters escaped in the rendered
  table. The data rows go through \<open>replace\<close>; the header line is joined from the header
  cells as they are. For the header \<open>a|b\<close> over the row \<open>c|d\<close> the header line has a
  bare pipe inside the cell and the data line has the escaped one.
\<close>

theorem header_pipe_not_escaped:
  "fst (render_table 1 \<lparr>headers = [''a|b''], rows = [[''c|d'']]\<rparr>) =
     ''### Table 1\<newline>\<newline>'' @
     ''| a|b |\<newline>'' @
     ''| --- |\<newline>'' @
     ''| c'' @ [CHR 0x5C] @ ''|d |\<newline>'' @
     ''\<newline>''"
  by code_simp

text \<open>
  C4: with a non-empty header, a row shorter than the header is padded with empty strings
  to exactly the header's length, a row at least as long is left as it is, no row loses a
  cell, and the rendered line of a row is made of the cells of the padded row, each with
  its pipes escaped (so a cell without a pipe is rendered as it is), cells beyond the
  header count included.
\<close>

theorem rows_padded_never_truncated:
  assumes "hdrs \<noteq> []"
  shows "(length row < length hdrs \<longrightarrow>
            pad_row hdrs row = row @ replicate (length hdrs - length row) [] \<and>
            length (pad_row hdrs row) = length hdrs) \<and>
         (length hdrs \<le> length row \<longrightarrow> pad_row hdrs row = row) \<and>
         take (length row) (pad_row hdrs row) = row \<and>
         render_rows hdrs rws =
           (concat (map (\<lambda>r. ''| '' @ join '' | '' (map replace_pipe (pad_row hdrs r)) @ '' |\<newline>'') rws),
            map (pad_row hdrs) rws) \<and>
         (length hdrs \<le> length row \<and> (\<forall>cell \<in> set row. CHR ''|'' \<notin> set cell) \<longrightarrow>
            render_rows hdrs [row] = (''| '' @ join '' | '' row @ '' |\<newline>'', [row]))"
proof -
  have short: "length row < length hdrs \<longrightarrow>
      pad_row hdrs row = row @ replicate (length hdrs - length row) [] \<and>
      length (pad_row hdrs row) = length hdrs"
    using assms by (simp add: pad_row_short)
  have long: "length hdrs \<le> length row \<longrightarrow> pad_row hdrs row = row"
    by (simp add: pad_row_long)
  have all: "render_rows hdrs rws =
      (concat (map (\<lambda>r. ''| '' @ join '' | '' (map replace_pipe (pad_row hdrs r)) @ '' |\<newline>'') rws),
       map (pad_row hdrs) rws)"
    by (simp add: render_rows_eq row_line_def)
  have verbatim: "length hdrs \<le> length row \<and> (\<forall>cell \<in> set row. CHR ''|'' \<notin> set cell) \<longrightarrow>
      render_rows hdrs [row] = (''| '' @ join '' | '' row @ '' |\<newline>'', [row])"
  proof
    assume h: "length hdrs \<le> length row \<and> (\<forall>cell \<in> set row. CHR ''|'' \<notin> set cell)"
    then have "map replace_pipe row = row"
      by (simp add: map_idI replace_pipe_id)
    with h show "render_rows hdrs [row] = (''| '' @ join '' | '' row @ '' |\<newline>'', [row])"
      by (simp add: render_rows_eq row_line_def pad_row_long)
  qed
  from short long all verbatim show ?thesis
    by (simp only: take_pad_row simp_thms)
qed

theorem rows_padded_never_truncated_witness:
  "pad_row [''A'', ''B''] [''1''] = [''1'', ''''] \<and>
   pad_row [''A'', ''B''] [''x'', ''y'', ''z''] = [''x'', ''y'', ''z''] \<and>
   render_rows [''A'', ''B''] [[''x'', ''y'', ''z'']] = (''| x | y | z |\<newline>'', [[''x'', ''y'', ''z'']])"
proof -
  have ne: "[''A'', ''B''] \<noteq> ([] :: string list)" by simp
  from rows_padded_never_truncated [OF ne, of "[''1'']" "[]"]
  have a: "pad_row [''A'', ''B''] [''1''] = [''1'', '''']"
    by (simp add: numeral_2_eq_2)
  from rows_padded_never_truncated [OF ne, of "[''x'', ''y'', ''z'']" "[]"]
  have b: "pad_row [''A'', ''B''] [''x'', ''y'', ''z''] = [''x'', ''y'', ''z'']"
      and c: "render_rows [''A'', ''B''] [[''x'', ''y'', ''z'']] = (''| x | y | z |\<newline>'', [[''x'', ''y'', ''z'']])"
    by (simp_all del: render_rows.simps)
  from a b c show ?thesis by simp
qed

lemma str_count_dashes_step:
  "str_count ''---'' (''---'' @ s) = Suc (str_count ''---'' s)"
  by (simp add: startswith_def)

lemma str_count_dashes_skip:
  "str_count ''---'' ('' | '' @ s) = str_count ''---'' s"
  by (simp add: startswith_def)

lemma str_count_separator_cells:
  "str_count ''---'' (join '' | '' (map (\<lambda>_. ''---'') hdrs) @ '' |\<newline>'') = length hdrs"
proof (induction hdrs rule: induct_list012)
  case 1
  show ?case by (simp add: startswith_def)
next
  case (2 x)
  have "str_count ''---'' (''---'' @ '' |\<newline>'') = Suc (str_count ''---'' '' |\<newline>'')"
    by (rule str_count_dashes_step)
  then show ?case by (simp add: startswith_def)
next
  case (3 x y zs)
  let ?rest = "join '' | '' (map (\<lambda>_. ''---'') (y # zs)) @ '' |\<newline>''"
  have "join '' | '' (map (\<lambda>_. ''---'') (x # y # zs)) @ '' |\<newline>'' = ''---'' @ ('' | '' @ ?rest)"
    by simp
  then have "str_count ''---'' (join '' | '' (map (\<lambda>_. ''---'') (x # y # zs)) @ '' |\<newline>'')
      = Suc (str_count ''---'' ?rest)"
    by (simp only: str_count_dashes_step str_count_dashes_skip)
  with 3 show ?case by simp
qed

text \<open>
  C9: the separator line of a rendered table has one \<open>---\<close> entry per header cell: the
  number of occurrences of \<open>---\<close> in it is the number of header cells, and with a
  non-empty header the line follows the header line in the rendered table.
\<close>

theorem separator_count_equals_header_count:
  "str_count ''---'' (separator_line hdrs) = length hdrs \<and>
   (headers t \<noteq> [] \<longrightarrow>
      fst (render_table idx t) =
        ''### Table '' @ str_nat idx @ ''\<newline>\<newline>'' @ header_line (headers t)
        @ separator_line (headers t) @ fst (render_rows (headers t) (rows t)) @ ''\<newline>'')"
proof -
  have "separator_line hdrs = ''| '' @ (join '' | '' (map (\<lambda>_. ''---'') hdrs) @ '' |\<newline>'')"
    by (simp add: separator_line_def)
  then have "str_count ''---'' (separator_line hdrs)
      = str_count ''---'' (join '' | '' (map (\<lambda>_. ''---'') hdrs) @ '' |\<newline>'')"
    by (simp add: startswith_def)
  then have count: "str_count ''---'' (separator_line hdrs) = length hdrs"
    by (simp only: str_count_separator_cells)
  have "headers t \<noteq> [] \<longrightarrow>
      fst (render_table idx t) =
        ''### Table '' @ str_nat idx @ ''\<newline>\<newline>'' @ header_line (headers t)
        @ separator_line (headers t) @ fst (render_rows (headers t) (rows t)) @ ''\<newline>''"
    by (simp add: render_table_def Let_def split: prod.splits)
  with count show ?thesis by blast
qed

theorem separator_count_equals_header_count_witness:
  "str_count ''---'' (separator_line [''A'', ''B'']) = 2 \<and>
   fst (render_table 1 \<lparr>headers = [''A'', ''B''], rows = [[''1'']]\<rparr>) =
     ''### Table 1\<newline>\<newline>| A | B |\<newline>| --- | --- |\<newline>| 1 |  |\<newline>\<newline>''"
proof -
  have ev: "''### Table '' @ str_nat 1 @ ''\<newline>\<newline>'' @ header_line [''A'', ''B'']
        @ separator_line [''A'', ''B''] @ fst (render_rows [''A'', ''B''] [[''1'']]) @ ''\<newline>''
      = ''### Table 1\<newline>\<newline>| A | B |\<newline>| --- | --- |\<newline>| 1 |  |\<newline>\<newline>''"
    by code_simp
  from separator_count_equals_header_count
    [of "[''A'', ''B'']" "\<lparr>headers = [''A'', ''B''], rows = [[''1'']]\<rparr>" 1] ev
  show ?thesis by simp
qed

section \<open>Images\<close>

lemma scrape_images_append:
  "scrape_images w url k (xs @ ys) =
     (case scrape_images w url k xs of
        Inl e \<Rightarrow> Inl e
      | Inr before \<Rightarrow>
          (case scrape_images w url (k + length xs) ys of
             Inl e \<Rightarrow> Inl e
           | Inr after \<Rightarrow> Inr (before @ after)))"
  by (induction xs arbitrary: k) (simp_all split: sum.splits option.splits)

lemma scrape_images_append_at:
  assumes "k + length xs = m"
  shows "scrape_images w url k (xs @ ys) =
     (case scrape_images w url k xs of
        Inl e \<Rightarrow> Inl e
      | Inr before \<Rightarrow>
          (case scrape_images w url m ys of
             Inl e \<Rightarrow> Inl e
           | Inr after \<Rightarrow> Inr (before @ after)))"
  using assms scrape_images_append [of w url k xs ys] by auto

lemma scrape_images_at:
  assumes "i < length img_tags"
    and "embed_image w url i (img_tags ! i) = Inr appended"
  shows "scrape_images w url 0 img_tags =
           (case scrape_images w url 0 (take i img_tags) of
              Inl e \<Rightarrow> Inl e
            | Inr before \<Rightarrow>
                (case scrape_images w url (i + 1) (drop (i + 1) img_tags) of
                   Inl e \<Rightarrow> Inl e
                 | Inr after \<Rightarrow>
                     Inr (before @ (case appended of None \<Rightarrow> [] | Some img \<Rightarrow> [img]) @ after)))"
proof -
  from assms(1) have "img_tags = take i img_tags @ (img_tags ! i) # drop (i + 1) img_tags"
    by (simp add: id_take_nth_drop)
  then have "scrape_images w url 0 img_tags =
      scrape_images w url 0 (take i img_tags @ (img_tags ! i) # drop (i + 1) img_tags)"
    by simp
  also have "\<dots> =
      (case scrape_images w url 0 (take i img_tags) of
         Inl e \<Rightarrow> Inl e
       | Inr before \<Rightarrow>
           (case scrape_images w url i ((img_tags ! i) # drop (i + 1) img_tags) of
              Inl e \<Rightarrow> Inl e
            | Inr after \<Rightarrow> Inr (before @ after)))"
    using assms(1) by (intro scrape_images_append_at) simp
  finally show ?thesis
    using assms(2) by (simp split: sum.splits option.splits)
qed

text \<open>
  C8: the MIME type of an embedded image depends on the image URL alone: \<open>image/png\<close>
  when the lower-cased URL ends in \<open>.png\<close>, \<open>image/gif\<close> when it ends in \<open>.gif\<close>,
  \<open>image/jpeg\<close> for anything else; the fetched bytes appear only in the payload after
  \<open>;base64,\<close>.
\<close>

theorem mime_type_from_url_extension:
  assumes "embed_image w url idx img_tag = Inr (Some img)"
    and "get_attr img_tag ''src'' = Some src"
  shows "\<exists>img_url r. urljoin w url src = Inr img_url \<and> requests_get w img_url = Inr r \<and>
           embedded img =
             ''data:image/''
             @ (if suffix ''.png'' (lower img_url) then ''png''
                else if suffix ''.gif'' (lower img_url) then ''gif''
                else ''jpeg'')
             @ '';base64,'' @ b64encode (content r)"
  using assms
  by (auto simp: embed_image_def img_format_def endswith_suffix
      split: if_splits sum.splits)

theorem mime_type_from_url_extension_witness:
  "(\<exists>img. embed_image example_world ''http://h/page'' 0
             (Tag ''img'' [(''src'', ''a.PNG''), (''alt'', ''logo'')] []) = Inr (Some img) \<and>
          embedded img = ''data:image/png;base64,Ynl0ZXM='') \<and>
   (\<exists>img. embed_image example_world ''http://h/page'' 1
             (Tag ''img'' [(''src'', ''b.webp'')] []) = Inr (Some img) \<and>
          embedded img = ''data:image/jpeg;base64,Ynl0ZXM='')"
proof -
  let ?png = "Tag ''img'' [(''src'', ''a.PNG''), (''alt'', ''logo'')] []"
  let ?webp = "Tag ''img'' [(''src'', ''b.webp'')] []"
  have e1: "embed_image example_world ''http://h/page'' 0 ?png =
      Inr (Some \<lparr>embedded = ''data:image/png;base64,Ynl0ZXM='', alt = ''logo''\<rparr>)"
    by code_simp
  have e2: "embed_image example_world ''http://h/page'' 1 ?webp =
      Inr (Some \<lparr>embedded = ''data:image/jpeg;base64,Ynl0ZXM='', alt = ''Image 2''\<rparr>)"
    by code_simp
  have s1: "get_attr ?png ''src'' = Some ''a.PNG''" by simp
  have s2: "get_attr ?webp ''src'' = Some ''b.webp''" by simp
  from mime_type_from_url_extension [OF e1 s1] mime_type_from_url_extension [OF e2 s2] e1 e2
  show ?thesis by simp
qed

text \<open>
  C5: the image emitted for the \<open>img\<close> element at position \<open>i\<close> (counted from 0 among
  the document's \<open>img\<close> elements) stands in the output between the images of the elements
  before it and those of the elements after it; its alt text is \<open>Image\<close> followed by
  \<open>i + 1\<close> in decimal when the element has no \<open>alt\<close> attribute and the attribute's
  value otherwise, and the rendered line carries that alt text as it is.
\<close>

theorem default_alt_text_is_position:
  assumes "i < length img_tags"
    and "embed_image w url i (img_tags ! i) = Inr (Some img)"
  shows "scrape_images w url 0 img_tags =
           (case scrape_images w url 0 (take i img_tags) of
              Inl e \<Rightarrow> Inl e
            | Inr before \<Rightarrow>
                (case scrape_images w url (i + 1) (drop (i + 1) img_tags) of
                   Inl e \<Rightarrow> Inl e
                 | Inr after \<Rightarrow> Inr (before @ img # after))) \<and>
         alt img = (case get_attr (img_tags ! i) ''alt'' of
                      None \<Rightarrow> ''Image '' @ str_nat (i + 1)
                    | Some a \<Rightarrow> a) \<and>
         image_line img = ''!['' @ alt img @ '']('' @ embedded img @ '')\<newline>\<newline>''"
proof -
  from scrape_images_at [OF assms]
  have pos: "scrape_images w url 0 img_tags =
      (case scrape_images w url 0 (take i img_tags) of
         Inl e \<Rightarrow> Inl e
       | Inr before \<Rightarrow>
           (case scrape_images w url (i + 1) (drop (i + 1) img_tags) of
              Inl e \<Rightarrow> Inl e
            | Inr after \<Rightarrow> Inr (before @ img # after)))"
    by (simp split: sum.splits)
  from assms(2) have "alt img = (case get_attr (img_tags ! i) ''alt'' of
      None \<Rightarrow> ''Image '' @ str_nat (i + 1) | Some a \<Rightarrow> a)"
    by (auto simp: embed_image_def split: option.splits if_splits sum.splits)
  with pos show ?thesis
    by (simp add: image_line_def)
qed

theorem default_alt_text_is_position_witness:
  "map_sum id (map alt)
     (scrape_images example_world ''http://h/page'' 0 (find_all [''img''] example_soup))
     = Inr [''logo'', ''Image 2''] \<and>
   (\<exists>img. embed_image example_world ''http://h/page'' 1 (find_all [''img''] example_soup ! 1)
            = Inr (Some img) \<and>
          alt img = ''Image 2'' \<and>
          image_line img = ''![Image 2](data:image/jpeg;base64,Ynl0ZXM=)\<newline>\<newline>'')"
proof -
  let ?tags = "find_all [''img''] example_soup"
  let ?img = "\<lparr>embedded = ''data:image/jpeg;base64,Ynl0ZXM='', alt = ''Image 2''\<rparr>"
  have tags: "?tags =
      [Tag ''img'' [(''src'', ''a.PNG''), (''alt'', ''logo'')] [],
       Tag ''img'' [(''src'', ''b.webp'')] [],
       Tag ''img'' [(''src'', ''missing.gif'')] []]"
    by code_simp
  have len: "1 < length ?tags"
    by (simp add: tags)
  have e: "embed_image example_world ''http://h/page'' 1 (?tags ! 1) = Inr (Some ?img)"
    by code_simp
  have all: "map_sum id (map alt) (scrape_images example_world ''http://h/page'' 0 ?tags)
      = Inr [''logo'', ''Image 2'']"
    by code_simp
  from default_alt_text_is_position [OF len e, THEN conjunct2, THEN conjunct2]
  have "image_line ?img = ''![Image 2](data:image/jpeg;base64,Ynl0ZXM=)\<newline>\<newline>''"
    by simp
  with e all show ?thesis by simp
qed

section \<open>Failures\<close>


lemma document_failure_is_fatal:
  "(requests_get w url = Inl e \<longrightarrow> scrape_visual_data w url bucket = Inl e) \<and>
   (requests_get w url = Inr resp \<and> 400 \<le> status_code resp \<and> status_code resp < 600 \<longrightarrow>
      scrape_visual_data w url bucket = Inl (HTTPError (status_code resp)))"
  by (simp add: scrape_visual_data_def markdown_content_def raise_for_status_def)

lemma raised_image_fetch_is_local:
  assumes "get_attr img_tag ''src'' = Some src"
    and "urljoin w url src = Inr img_url"
    and "requests_get w img_url = Inl e"
  shows "scrape_images w url 0 (pre @ img_tag # post) =
           (case scrape_images w url 0 pre of
              Inl e \<Rightarrow> Inl e
            | Inr before \<Rightarrow>
                (case scrape_images w url (length pre + 1) post of
                   Inl e \<Rightarrow> Inl e
                 | Inr after \<Rightarrow> Inr (before @ after)))"
proof -
  from assms have "embed_image w url (length pre) img_tag = Inr None"
    by (simp add: embed_image_def)
  then have "scrape_images w url (length pre) (img_tag # post) =
      scrape_images w url (length pre + 1) post"
    by simp
  then show ?thesis
    by (simp add: scrape_images_append split: sum.splits)
qed

lemma image_response_embedded_whatever_status:
  assumes "get_attr img_tag ''src'' = Some src" and "src \<noteq> []"
    and "urljoin w url src = Inr img_url"
    and "requests_get w img_url = Inr r"
  shows "\<exists>img. embed_image w url idx img_tag = Inr (Some img) \<and>
           embedded img = ''data:image/'' @ img_format img_url @ '';base64,'' @ b64encode (content r)"
  using assms by (simp add: embed_image_def)

lemma unparsable_src_is_fatal:
  assumes "get_attr img_tag ''src'' = Some src" and "src \<noteq> []"
    and "urljoin w url src = Inl e"
    and "scrape_images w url 0 pre = Inr before"
  shows "scrape_images w url 0 (pre @ img_tag # post) = Inl e"
proof -
  from assms have "embed_image w url (length pre) img_tag = Inl e"
    by (simp add: embed_image_def)
  with assms(4) show ?thesis
    by (simp add: scrape_images_append)
qed

text \<open>
  C7: a failure to fetch one image is caught, and that image is left out. When the fetch
  raises, it is; the document's own fetch goes through \<open>raise_for_status\<close>, the image's
  does not. On a page whose only image answers with status 404 and the body
  \<open>Not Found\<close>, the image is not left out: the body is embedded as \<open>image/png\<close>. On a
  page whose second image has a source that \<open>urljoin\<close> cannot parse, the exception
  leaves \<open>scrape_visual_data\<close> and no document is produced.
\<close>

theorem image_http_error_is_embedded:
  "requests_get example_world ''http://h/gone.png'' =
     Inr \<lparr>status_code = 404, response_text = ''Not Found'', content = ''Not Found''\<rparr> \<and>
   scrape_images example_world ''http://h/gone-image'' 0 (find_all [''img''] gone_image_soup) =
     Inr [\<lparr>embedded = ''data:image/png;base64,Tm90IEZvdW5k'', alt = ''Image 1''\<rparr>] \<and>
   markdown_content example_world ''http://h/gone-image'' =
     Inr (''# Extracted Web Content\<newline>\<newline>## Content\<newline>\<newline>Hello\<newline>\<newline>''
          @ ''## Images\<newline>\<newline>![Image 1](data:image/png;base64,Tm90IEZvdW5k)\<newline>\<newline>'') \<and>
   scrape_images example_world ''http://h/page'' 0 (find_all [''img''] example_soup) =
     Inr [\<lparr>embedded = ''data:image/png;base64,Ynl0ZXM='', alt = ''logo''\<rparr>,
          \<lparr>embedded = ''data:image/jpeg;base64,Ynl0ZXM='', alt = ''Image 2''\<rparr>] \<and>
   scrape_visual_data example_world ''http://h/gone'' Map.empty = Inl (HTTPError 404) \<and>
   scrape_visual_data example_world ''http://h/malformed-src'' Map.empty = Inl ValueError"
proof -
  have gone: "requests_get example_world ''http://h/gone.png'' =
      Inr \<lparr>status_code = 404, response_text = ''Not Found'', content = ''Not Found''\<rparr>"
    by (simp add: example_world_def)
  have imgs: "scrape_images example_world ''http://h/gone-image'' 0
        (find_all [''img''] gone_image_soup) =
      Inr [\<lparr>embedded = ''data:image/png;base64,Tm90IEZvdW5k'', alt = ''Image 1''\<rparr>]"
    by code_simp
  have md: "markdown_content example_world ''http://h/gone-image'' =
      Inr (''# Extracted Web Content\<newline>\<newline>## Content\<newline>\<newline>Hello\<newline>\<newline>''
           @ ''## Images\<newline>\<newline>![Image 1](data:image/png;base64,Tm90IEZvdW5k)\<newline>\<newline>'')"
    by code_simp
  have raised: "scrape_images example_world ''http://h/page'' 0 (find_all [''img''] example_soup) =
      Inr [\<lparr>embedded = ''data:image/png;base64,Ynl0ZXM='', alt = ''logo''\<rparr>,
           \<lparr>embedded = ''data:image/jpeg;base64,Ynl0ZXM='', alt = ''Image 2''\<rparr>]"
    by code_simp
  have "markdown_content example_world ''http://h/gone'' = Inl (HTTPError 404)"
    by code_simp
  then have doc: "scrape_visual_data example_world ''http://h/gone'' Map.empty = Inl (HTTPError 404)"
    by (simp add: scrape_visual_data_def)
  have "markdown_content example_world ''http://h/malformed-src'' = Inl ValueError"
    by code_simp
  then have bad: "scrape_visual_data example_world ''http://h/malformed-src'' Map.empty = Inl ValueError"
    by (simp add: scrape_visual_data_def)
  from gone imgs md raised doc bad show ?thesis
    by (intro conjI)
qed

section \<open>Sections of the document\<close>








section \<open>Extracting a table\<close>







lemma descendants_trans:
  "d \<in> set (descendants t) \<Longrightarrow> x \<in> set (descendants d) \<Longrightarrow> x \<in> set (descendants t)"
proof (induction t arbitrary: d x)
  case (NavigableString k s)
  then show ?case by simp
next
  case (Tag n a cs)
  from Tag.prems(1) obtain c where c: "c \<in> set cs" "d = c \<or> d \<in> set (descendants c)"
    by auto
  with Tag.IH Tag.prems(2) have "x \<in> set (descendants c)"
    by auto
  with c(1) show ?case by auto
qed

lemma find_all_descendants: "x \<in> set (find_all names t) \<Longrightarrow> x \<in> set (descendants t)"
  by (simp add: find_all_def)

lemma find_all_below:
  assumes "d \<in> set (find_all names' t)" and "x \<in> set (find_all names d)"
  shows "x \<in> set (descendants t)"
  using assms by (meson descendants_trans find_all_descendants)

lemma node_eq_descendants:
  "(node_eq a b \<longrightarrow> list_all2 node_eq (descendants a) (descendants b))"
  "(nodes_eq cs ds \<longrightarrow>
      list_all2 node_eq (concat (map (\<lambda>c. c # descendants c) cs))
        (concat (map (\<lambda>c. c # descendants c) ds)))"
  by (induction a b and cs ds rule: node_eq_nodes_eq.induct)
    (auto intro: list_all2_appendI)

lemma node_eq_is_named: "node_eq a b \<Longrightarrow> is_named nm a = is_named nm b"
  by (cases a; cases b) auto

lemma list_all2_filter_cong:
  assumes "list_all2 R xs ys" and "\<And>x y. R x y \<Longrightarrow> P x = P y"
  shows "list_all2 R (filter P xs) (filter P ys)"
  using assms by (induction rule: list_all2_induct) auto

lemma list_all2_list_all_cong:
  assumes "list_all2 R xs ys" and "\<And>x y. R x y \<Longrightarrow> P x = P y"
  shows "list_all P xs = list_all P ys"
  using assms by (induction rule: list_all2_induct) auto

lemma node_eq_find_all:
  assumes "node_eq a b"
  shows "list_all2 node_eq (find_all names a) (find_all names b)"
  unfolding find_all_def
  using assms node_eq_descendants(1) [of a b]
  by (intro list_all2_filter_cong) (auto simp: list_ex_iff node_eq_is_named)

lemma node_eq_cells_all_named:
  assumes "node_eq a b"
  shows "list_all (is_named nm) (find_all names a) = list_all (is_named nm) (find_all names b)"
  using node_eq_find_all [OF assms] by (rule list_all2_list_all_cong) (rule node_eq_is_named)

lemma node_eq_cells_empty:
  assumes "node_eq a b"
  shows "(find_all names a = []) = (find_all names b = [])"
  using node_eq_find_all [OF assms, of names] by (auto dest: list_all2_lengthD)

lemma attrs_eq_refl: "attrs_eq a a"
  by (simp add: attrs_eq_def list_all_iff)

lemma nodes_eq_refl_if: "(\<And>c. c \<in> set cs \<Longrightarrow> node_eq c c) \<Longrightarrow> nodes_eq cs cs"
  by (induction cs) auto

lemma node_eq_refl: "node_eq a a"
  by (induction a) (auto simp: attrs_eq_refl intro: nodes_eq_refl_if)

lemma collect_rows_filter:
  "collect_rows r0 header_row rws =
     filter (\<lambda>row_data. row_data \<noteq> [])
       (map (\<lambda>row. map get_text_strip (find_all [''td'', ''th''] row))
          (filter (\<lambda>row. \<not> (node_eq r0 row \<and> header_row \<noteq> [] \<and>
                                list_all (is_named ''th'') (find_all [''td'', ''th''] row))) rws))"
  by (induction rws) (simp_all add: Let_def)

lemma filter_nonempty_map_filter:
  assumes "\<And>x. x \<in> set xs \<Longrightarrow> \<not> P x \<Longrightarrow> f x = []"
  shows "filter (\<lambda>r. r \<noteq> []) (map f (filter P xs)) = filter (\<lambda>r. r \<noteq> []) (map f xs)"
  using assms by (induction xs) auto

lemma table_header_eq:
  "table_header tbl =
     (if find_all [''th''] tbl \<noteq> [] then map get_text_strip (find_all [''th''] tbl)
      else case find_all [''tr''] tbl of
             [] \<Rightarrow> []
           | first_row # _ \<Rightarrow> map get_text_strip (find_all [''td'', ''th''] first_row))"
  by (simp add: table_header_def find_first_def Let_def split: list.splits)

lemma th_cell_in_table:
  assumes "row \<in> set (find_all [''tr''] tbl)"
    and "find_all [''td'', ''th''] row \<noteq> []"
    and "list_all (is_named ''th'') (find_all [''td'', ''th''] row)"
  shows "find_all [''th''] tbl \<noteq> []"
proof -
  from assms(2) obtain cell where cell: "cell \<in> set (find_all [''td'', ''th''] row)"
    by (cases "find_all [''td'', ''th''] row") auto
  with assms(3) have named: "is_named ''th'' cell"
    by (simp add: list_all_iff)
  from assms(1) cell have "cell \<in> set (descendants tbl)"
    by (rule find_all_below)
  with named have "cell \<in> set (find_all [''th''] tbl)"
    by (simp add: find_all_def)
  then show ?thesis by auto
qed

lemma extract_table_rows:
  assumes "find_all [''tr''] tbl = first_row # rest"
  shows "rows (extract_table tbl) =
           filter (\<lambda>row_data. row_data \<noteq> [])
             (map (\<lambda>row. map get_text_strip (find_all [''td'', ''th''] row))
                (if find_all [''td'', ''th''] first_row \<noteq> [] \<and>
                    list_all (is_named ''th'') (find_all [''td'', ''th''] first_row)
                 then filter (\<lambda>row. \<not> node_eq first_row row) rest
                 else first_row # rest))"
proof -
  let ?cells = "\<lambda>row. find_all [''td'', ''th''] row"
  let ?texts = "\<lambda>row. map get_text_strip (?cells row)"
  let ?skip = "\<lambda>row. node_eq first_row row \<and> table_header tbl \<noteq> [] \<and>
      list_all (is_named ''th'') (?cells row)"
  have rows_eq: "rows (extract_table tbl) =
      filter (\<lambda>row_data. row_data \<noteq> [])
        (map ?texts (filter (\<lambda>row. \<not> ?skip row) (first_row # rest)))"
    using assms by (simp add: extract_table_def Let_def collect_rows_filter del: collect_rows.simps)
  show ?thesis
  proof (cases "?cells first_row \<noteq> [] \<and> list_all (is_named ''th'') (?cells first_row)")
    case True
    from assms have "first_row \<in> set (find_all [''tr''] tbl)"
      by simp
    with True have "find_all [''th''] tbl \<noteq> []"
      by (intro th_cell_in_table [of first_row]) simp_all
    then have hdr: "table_header tbl \<noteq> []"
      by (simp add: table_header_eq)
    have "?skip row = node_eq first_row row" for row
      using True hdr node_eq_cells_all_named [of first_row row "''th''" "[''td'', ''th'']"]
      by auto
    then have e1: "filter (\<lambda>row. \<not> ?skip row) (first_row # rest) =
        filter (\<lambda>row. \<not> node_eq first_row row) rest"
      by (simp add: node_eq_refl)
    from True have c: "(?cells first_row \<noteq> [] \<and> list_all (is_named ''th'') (?cells first_row)) = True"
      by simp
    show ?thesis
      by (simp only: rows_eq e1 c if_True)
  next
    case False
    have "?texts row = []" if "\<not> \<not> ?skip row" for row
    proof -
      from that have eq: "node_eq first_row row"
        and all: "list_all (is_named ''th'') (?cells row)"
        by simp_all
      from eq all have "list_all (is_named ''th'') (?cells first_row)"
        by (simp add: node_eq_cells_all_named [of first_row row])
      with False have "?cells first_row = []"
        by simp
      with eq have "?cells row = []"
        by (simp add: node_eq_cells_empty [of first_row row])
      then show ?thesis by simp
    qed
    then have e2: "filter (\<lambda>row_data. row_data \<noteq> [])
        (map ?texts (filter (\<lambda>row. \<not> ?skip row) (first_row # rest))) =
        filter (\<lambda>row_data. row_data \<noteq> []) (map ?texts (first_row # rest))"
      by (intro filter_nonempty_map_filter)
    from False have c: "(?cells first_row \<noteq> [] \<and> list_all (is_named ''th'') (?cells first_row)) = False"
      by simp
    show ?thesis
      by (simp only: rows_eq e2 c if_False)
  qed
qed

lemma extract_table_rows_fallback:
  assumes "find_all [''th''] tbl = []"
  shows "rows (extract_table tbl) =
           filter (\<lambda>row_data. row_data \<noteq> [])
             (map (\<lambda>row. map get_text_strip (find_all [''td'', ''th''] row))
                (find_all [''tr''] tbl))"
proof (cases "find_all [''tr''] tbl")
  case Nil
  then show ?thesis by (simp add: extract_table_def Let_def)
next
  case (Cons first_row rest)
  have c: "\<not> (find_all [''td'', ''th''] first_row \<noteq> [] \<and>
      list_all (is_named ''th'') (find_all [''td'', ''th''] first_row))"
  proof
    assume h: "find_all [''td'', ''th''] first_row \<noteq> [] \<and>
      list_all (is_named ''th'') (find_all [''td'', ''th''] first_row)"
    from Cons have "first_row \<in> set (find_all [''tr''] tbl)" by simp
    with h have "find_all [''th''] tbl \<noteq> []"
      by (intro th_cell_in_table [of first_row]) simp_all
    with assms show False by simp
  qed
  from c have "(find_all [''td'', ''th''] first_row \<noteq> [] \<and>
      list_all (is_named ''th'') (find_all [''td'', ''th''] first_row)) = False"
    by simp
  then show ?thesis
    by (simp only: extract_table_rows [OF Cons] Cons if_False)
qed

lemma strip_edges:
  "strip s = [] \<or> (\<not> isspace (hd (strip s)) \<and> \<not> isspace (last (strip s)))"
proof (cases "strip s = []")
  case True
  then show ?thesis by simp
next
  case False
  let ?t = "dropWhile isspace s"
  let ?u = "dropWhile isspace (rev ?t)"
  from False have u: "?u \<noteq> []"
    by (simp add: strip_def)
  then have "\<not> isspace (hd ?u)"
    by (rule hd_dropWhile)
  with u have l: "\<not> isspace (last (strip s))"
    by (simp add: strip_def last_rev)
  have t: "?t \<noteq> []"
  proof
    assume "?t = []"
    then have "?u = []"
      by (simp only: rev.simps dropWhile.simps)
    with u show False by simp
  qed
  then have ht: "\<not> isspace (hd ?t)"
    by (rule hd_dropWhile)
  obtain ws where ws: "rev ?t = ws @ ?u"
    by (metis takeWhile_dropWhile_id)
  then have "?t = rev ?u @ rev ws"
    by (metis rev_append rev_rev_ident)
  with u have "hd ?t = hd (rev ?u)"
    by (metis hd_append2 rev_is_Nil_conv)
  with ht have "\<not> isspace (hd (strip s))"
    by (simp add: strip_def)
  with l show ?thesis by simp
qed

lemma strip_frame:
  "\<exists>l r. s = l @ strip s @ r \<and> list_all isspace l \<and> list_all isspace r"
proof -
  let ?t = "dropWhile isspace s"
  let ?u = "dropWhile isspace (rev ?t)"
  have a: "s = takeWhile isspace s @ ?t"
    by simp
  have "rev ?t = takeWhile isspace (rev ?t) @ ?u"
    by simp
  then have b: "?t = rev ?u @ rev (takeWhile isspace (rev ?t))"
    by (metis rev_append rev_rev_ident)
  have "s = takeWhile isspace s @ strip s @ rev (takeWhile isspace (rev ?t))"
    unfolding strip_def using a b by metis
  moreover have "list_all isspace (takeWhile isspace s)"
    by (simp add: list_all_iff) (meson set_takeWhileD)
  moreover have "list_all isspace (rev (takeWhile isspace (rev ?t)))"
    by (simp add: list_all_iff) (meson set_takeWhileD)
  ultimately show ?thesis by blast
qed

lemma get_text_strip_single:
  "get_text_strip (Tag ''td'' a [NavigableString PlainString s]) = strip s"
  by (simp add: get_text_strip_def)

lemma get_text_strip_classes:
  "get_text_strip
     (Tag ''td'' []
        [Tag ''script'' [] [NavigableString Script ''x''],
         NavigableString PlainString '' New '',
         NavigableString Comment ''c'',
         Tag ''b'' [] [NavigableString PlainString ''York '']]) = ''NewYork''"
  by code_simp

text \<open>
  C1: the row consumed as the header-by-position fallback is skipped when the data rows
  are collected, so the header row appears once. The code skips its first row only when
  all cells of that row are \<open>th\<close> cells, as in the scenario table. In the table without
  \<open>th\<close> cells, whose cells have spaces around their text, the first row gives the
  trimmed header A, B and is the first data row as well, where the specification has the
  one data row 1; the rendered table has the line \<open>| A | B |\<close> twice.
\<close>

theorem fallback_header_row_not_skipped:
  "find_all [''th''] headerless_table = [] \<and>
   headers (extract_table headerless_table) = [''A'', ''B''] \<and>
   rows (extract_table headerless_table) = [[''A'', ''B''], [''1'']] \<and>
   spec_fallback_data_rows headerless_table = [[''1'']] \<and>
   fst (render_table 1 (extract_table headerless_table)) =
     ''### Table 1\<newline>\<newline>| A | B |\<newline>| --- | --- |\<newline>| A | B |\<newline>| 1 |  |\<newline>\<newline>'' \<and>
   extract_table scenario_table = \<lparr>headers = [''A'', ''B''], rows = [[''1'']]\<rparr> \<and>
   render_table 1 (extract_table scenario_table) =
     (''### Table 1\<newline>\<newline>| A | B |\<newline>| --- | --- |\<newline>| 1 |  |\<newline>\<newline>'',
      \<lparr>headers = [''A'', ''B''], rows = [[''1'', '''']]\<rparr>)"
proof -
  have noth: "find_all [''th''] headerless_table = []"
    by code_simp
  have hdr: "headers (extract_table headerless_table) = [''A'', ''B'']"
    by code_simp
  have dat: "rows (extract_table headerless_table) = [[''A'', ''B''], [''1'']]"
    by code_simp
  have spec: "spec_fallback_data_rows headerless_table = [[''1'']]"
    by code_simp
  have twice: "fst (render_table 1 (extract_table headerless_table)) =
      ''### Table 1\<newline>\<newline>| A | B |\<newline>| --- | --- |\<newline>| A | B |\<newline>| 1 |  |\<newline>\<newline>''"
    by code_simp
  have sc: "extract_table scenario_table = \<lparr>headers = [''A'', ''B''], rows = [[''1'']]\<rparr>"
    by code_simp
  have once: "render_table 1 (extract_table scenario_table) =
     (''### Table 1\<newline>\<newline>| A | B |\<newline>| --- | --- |\<newline>| 1 |  |\<newline>\<newline>'',
      \<lparr>headers = [''A'', ''B''], rows = [[''1'', '''']]\<rparr>)"
    by code_simp
  from noth hdr dat spec twice sc once show ?thesis
    by (intro conjI)
qed

end
